theory Spec2Isabelle
  imports Main "HOL-Library.Word"
begin

section \<open>The pool of grpc clients (pool.go)\<close>

text \<open>
  The development follows one pool object \<open>p\<close> through calls made one at a time. The
  pool's fields are a record that every operation takes and returns; everything
  outside the pool (the cells of the concurrency counters, the number of factory calls
  made so far, the log of connections closed, the largest channel the runtime can
  allocate) is the record \<open>env\<close>, passed alongside.
  The mutex \<open>mu\<close> is left out: it only guards the two channel fields against
  concurrent readers.

  Each call reads the clock once: \<open>now\<close> stands for every \<open>time.Now()\<close> of the call.

  A call that cannot go on by itself (a receive from an empty channel with a context
  that never fires, a send to a full channel) has the outcome \<open>Blocked\<close> with the
  state at that point: in a program with one goroutine it waits forever. A nil
  pointer dereference has the outcome \<open>Panicked\<close>.
\<close>

subsection \<open>Errors, connections, counters\<close>

datatype error = ErrClosed | ErrTimeout | ErrAlreadyClosed | ErrFullPool | FactoryError nat

text \<open>A \<open>*grpc.ClientConn\<close> is the identity of a connection; the pool only closes it.\<close>

type_synonym grpc_conn = nat

text \<open>A \<open>*ConcurrencyCounter\<close> is the address of an int32 cell.\<close>

type_synonym counter_ref = nat

text \<open>A \<open>*Pool\<close> held by a wrapper: the pool of the development, or nil (\<open>None\<close>).\<close>

datatype pool_ref = ThePool

text \<open>\<open>time.Time\<close> and \<open>time.Duration\<close> are nanoseconds; the zero time is 0.\<close>

record ClientConn =
  ClientConn :: "grpc_conn option"
  pool :: "pool_ref option"
  timeUsed :: int
  timeInitiated :: int
  unhealthy :: bool
  concurrency :: "counter_ref option"

text \<open>A buffered channel: its queued values, oldest first, and its capacity.\<close>

record 'a chan =
  buf :: "'a list"
  cap :: nat

text \<open>
  The factory is caller-supplied code: its results are given per call, indexed by the
  number of calls made before. It may return any pair of a connection and an error.
\<close>

type_synonym Factory = "nat \<Rightarrow> grpc_conn option \<times> error option"

record Pool =
  clients :: "ClientConn chan option"
  unhealthyClients :: "ClientConn chan option"
  factory :: Factory
  idleTimeout :: int
  maxLifeDuration :: int

text \<open>
  \<open>chanMax\<close> is the largest capacity for which \<open>make(chan ClientConn, n)\<close> gives a
  channel on the machine the program runs on. Beyond it the runtime panics
  (\<open>makechan: size out of range\<close>) or dies for lack of memory. With 64-bit pointers a
  \<open>ClientConn\<close> takes 80 bytes and the runtime refuses a buffer of more than
  \<open>2^48 - 96\<close> bytes, so \<open>chanMax\<close> is at most 3518437208882.
\<close>

record env =
  counters :: "counter_ref \<Rightarrow> 32 word"
  nextCounter :: counter_ref
  calls :: nat
  closedConns :: "grpc_conn list"
  chanMax :: int

text \<open>\<open>&ConcurrencyCounter{}\<close>: a fresh cell holding 0.\<close>

definition new_counter :: "env \<Rightarrow> counter_ref \<times> env" where
  "new_counter e =
     (nextCounter e,
      e\<lparr>counters := (counters e)(nextCounter e := 0), nextCounter := Suc (nextCounter e)\<rparr>)"

text \<open>The methods \<open>Get\<close> (here \<open>Counter_Get\<close>), \<open>Increment\<close> and \<open>Decrement\<close> of
  \<open>*ConcurrencyCounter\<close>; on a nil receiver the field access panics (\<open>None\<close>).
  \<open>atomic.AddInt32\<close> wraps around.\<close>

definition Counter_Get :: "counter_ref option \<Rightarrow> env \<Rightarrow> 32 word option" where
  "Counter_Get c e = (case c of None \<Rightarrow> None | Some a \<Rightarrow> Some (counters e a))"

definition Increment :: "counter_ref option \<Rightarrow> env \<Rightarrow> env option" where
  "Increment c e =
     (case c of None \<Rightarrow> None
      | Some a \<Rightarrow> Some (e\<lparr>counters := (counters e)(a := counters e a + 1)\<rparr>))"

definition Decrement :: "counter_ref option \<Rightarrow> env \<Rightarrow> env option" where
  "Decrement c e =
     (case c of None \<Rightarrow> None
      | Some a \<Rightarrow> Some (e\<lparr>counters := (counters e)(a := counters e a - 1)\<rparr>))"

text \<open>\<open>(*grpc.ClientConn).Close()\<close>, recorded in the log.\<close>

definition grpc_Close :: "grpc_conn \<Rightarrow> env \<Rightarrow> env" where
  "grpc_Close k e = e\<lparr>closedConns := closedConns e @ [k]\<rparr>"

subsection \<open>Channels\<close>

text \<open>\<open>ch <- x\<close> on a channel that is not nil: \<open>None\<close> when the buffer is full and the
  sender has to wait.\<close>

definition send :: "'a chan \<Rightarrow> 'a \<Rightarrow> 'a chan option" where
  "send q x = (if length (buf q) < cap q then Some (q\<lparr>buf := buf q @ [x]\<rparr>) else None)"

text \<open>\<open>make(chan ClientConn, n)\<close>: an empty channel of that capacity, or a panic
  (\<open>None\<close>) when \<open>n\<close> is negative or more than the runtime can allocate.\<close>

definition make_chan :: "int \<Rightarrow> env \<Rightarrow> ClientConn chan option" where
  "make_chan n e =
     (if 0 \<le> n \<and> n \<le> chanMax e then Some \<lparr>buf = [], cap = nat n\<rparr> else None)"

text \<open>
  The \<open>select\<close> of \<open>Get\<close> between a receive and \<open>ctx.Done()\<close>. A context is
  \<open>Background\<close> (never done, as is a cancellable context that nobody cancels),
  \<open>Pending\<close> (not done yet, done later: a deadline, a cancellation to come) or
  \<open>Expired\<close> (done already). With both cases ready Go picks one at random: \<open>pick\<close>
  says whether the receive wins. With an empty channel and no other goroutine to send,
  a pending context fires in the end.
\<close>

datatype ctx = Background | Pending | Expired

datatype 'a selected = Received 'a "'a chan" | CtxDone | Waits

definition select_recv :: "'a chan \<Rightarrow> ctx \<Rightarrow> bool \<Rightarrow> 'a selected" where
  "select_recv q ctx pick =
     (case buf q of
        [] \<Rightarrow> (if ctx = Background then Waits else CtxDone)
      | x # xs \<Rightarrow> (if ctx = Expired \<and> \<not> pick then CtxDone else Received x (q\<lparr>buf := xs\<rparr>)))"

subsection \<open>NewWithContext\<close>

datatype loop_result =
  LoopOk "ClientConn chan" env
| LoopErr error env
| LoopBlocked "ClientConn chan" env

text \<open>Lines 104-117: the loop that creates the initial clients; \<open>n\<close> iterations are left.\<close>

primrec warm :: "Factory \<Rightarrow> nat \<Rightarrow> int \<Rightarrow> ClientConn chan \<Rightarrow> env \<Rightarrow> loop_result" where
  "warm f 0 now q e = LoopOk q e"
| "warm f (Suc n) now q e =
     (case f (calls e) of (c, err) \<Rightarrow>
        (let e1 = e\<lparr>calls := Suc (calls e)\<rparr> in
         case err of
           Some er \<Rightarrow> LoopErr er e1
         | None \<Rightarrow>
             (case new_counter e1 of (a, e2) \<Rightarrow>
                (case send q \<lparr>ClientConn = c, pool = Some ThePool, timeUsed = now,
                              timeInitiated = now, unhealthy = False,
                              concurrency = Some a\<rparr> of
                   None \<Rightarrow> LoopBlocked q e2
                 | Some q' \<Rightarrow> warm f n now q' e2))))"

text \<open>Lines 119-124: the loop that fills the rest of the pool with empty clients.\<close>

primrec fill :: "nat \<Rightarrow> ClientConn chan \<Rightarrow> env \<Rightarrow> loop_result" where
  "fill 0 q e = LoopOk q e"
| "fill (Suc n) q e =
     (case new_counter e of (a, e1) \<Rightarrow>
        (case send q \<lparr>ClientConn = None, pool = Some ThePool, timeUsed = 0,
                      timeInitiated = 0, unhealthy = False, concurrency = Some a\<rparr> of
           None \<Rightarrow> LoopBlocked q e1
         | Some q' \<Rightarrow> fill n q' e1))"

datatype new_result =
  NewReturned "Pool option" "error option" env
| NewBlocked env
| NewPanicked env

text \<open>
  \<open>init\<close> and \<open>capacity\<close> are Go \<open>int\<close>s, 64 bits wide and signed: words read with
  \<open>sint\<close>, and \<open>capacity - init\<close> is the subtraction of the machine.
  \<open>maxLifeDuration\<close> is the variadic parameter, a list. \<open>now\<close> is the clock during the
  call. The two \<open>make\<close> of lines 96-97 come before the first factory call.
\<close>

definition NewWithContext ::
  "Factory \<Rightarrow> 64 word \<Rightarrow> 64 word \<Rightarrow> int \<Rightarrow> int list \<Rightarrow> int \<Rightarrow> env \<Rightarrow> new_result" where
  "NewWithContext fac init capacity idle maxLife now e =
     (let capacity1 = (if sint capacity \<le> 0 then 1 else capacity);
          init1 = (if sint init < 0 then 0 else init);
          init2 = (if sint init1 > sint capacity1 then capacity1 else init1)
      in case make_chan (sint capacity1) e of
           None \<Rightarrow> NewPanicked e
         | Some clients0 \<Rightarrow>
             (case make_chan (sint capacity1) e of
                None \<Rightarrow> NewPanicked e
              | Some unhealthyClients0 \<Rightarrow>
                  (let p = \<lparr>clients = Some clients0,
                            unhealthyClients = Some unhealthyClients0,
                            factory = fac, idleTimeout = idle, maxLifeDuration = 0\<rparr>;
                       p1 = (case maxLife of [] \<Rightarrow> p | d # ds \<Rightarrow> p\<lparr>maxLifeDuration := d\<rparr>)
                   in case warm fac (nat (sint init2)) now clients0 e of
                        LoopErr er e1 \<Rightarrow> NewReturned None (Some er) e1
                      | LoopBlocked q e1 \<Rightarrow> NewBlocked e1
                      | LoopOk q e1 \<Rightarrow>
                          (case fill (nat (sint (capacity1 - init2))) q e1 of
                             LoopErr er e2 \<Rightarrow> NewReturned None (Some er) e2
                           | LoopBlocked q2 e2 \<Rightarrow> NewBlocked e2
                           | LoopOk q2 e2 \<Rightarrow>
                               NewReturned (Some (p1\<lparr>clients := Some q2\<rparr>)) None e2))))"

subsection \<open>The pool's methods\<close>

definition getClients :: "Pool \<Rightarrow> ClientConn chan option" where
  "getClients p = clients p"

text \<open>Lines 148-153 and 158-163: closing every client found in a closed channel.\<close>

fun drain :: "ClientConn list \<Rightarrow> env \<Rightarrow> env" where
  "drain [] e = e"
| "drain (client # rest) e =
     (case ClientConn client of
        None \<Rightarrow> drain rest e
      | Some k \<Rightarrow> drain rest (grpc_Close k e))"

definition Pool_Close :: "Pool \<Rightarrow> env \<Rightarrow> Pool \<times> env" where
  "Pool_Close p e =
     (let clients0 = clients p;
          unhealthyClients0 = unhealthyClients p;
          p1 = p\<lparr>clients := None, unhealthyClients := None\<rparr>;
          e1 = (case clients0 of None \<Rightarrow> e | Some q \<Rightarrow> drain (buf q) e);
          e2 = (case unhealthyClients0 of None \<Rightarrow> e1 | Some q \<Rightarrow> drain (buf q) e1)
      in (p1, e2))"

text \<open>\<open>IsClosed\<close> on a \<open>*Pool\<close> that may be nil.\<close>

definition IsClosed :: "pool_ref option \<Rightarrow> Pool \<Rightarrow> bool" where
  "IsClosed r p = (r = None \<or> getClients p = None)"

definition Capacity :: "Pool \<Rightarrow> nat" where
  "Capacity p =
     (if IsClosed (Some ThePool) p then 0
      else (case clients p of None \<Rightarrow> 0 | Some q \<Rightarrow> cap q))"

definition Available :: "Pool \<Rightarrow> nat" where
  "Available p =
     (if IsClosed (Some ThePool) p then 0
      else (case clients p of None \<Rightarrow> 0 | Some q \<Rightarrow> length (buf q)))"

subsection \<open>Get\<close>

datatype get_result =
  Returned "ClientConn option" "error option" Pool env
| Blocked Pool env
| Panicked Pool env

text \<open>Lines 222-227: the wrapper goes back into the channel unless it is unhealthy.\<close>

definition Get_requeue ::
  "ClientConn \<Rightarrow> error option \<Rightarrow> ClientConn chan \<Rightarrow> Pool \<Rightarrow> env \<Rightarrow> get_result" where
  "Get_requeue wrapper err q p e =
     (if \<not> unhealthy wrapper then
        (case send q wrapper of
           None \<Rightarrow> Blocked (p\<lparr>clients := Some q\<rparr>) e
         | Some q' \<Rightarrow> Returned (Some wrapper) err (p\<lparr>clients := Some q'\<rparr>) e)
      else Returned (Some wrapper) err (p\<lparr>clients := Some q\<rparr>) e)"

text \<open>Lines 218-221: the concurrency counter goes up when there is a connection.\<close>

definition Get_increment ::
  "ClientConn \<Rightarrow> error option \<Rightarrow> ClientConn chan \<Rightarrow> Pool \<Rightarrow> env \<Rightarrow> get_result" where
  "Get_increment wrapper err q p e =
     (if ClientConn wrapper \<noteq> None then
        (case Increment (concurrency wrapper) e of
           None \<Rightarrow> Panicked (p\<lparr>clients := Some q\<rparr>) e
         | Some e1 \<Rightarrow> Get_requeue wrapper err q p e1)
      else Get_requeue wrapper err q p e)"

text \<open>Lines 204-216: a wrapper without a connection gets one from the factory; when
  the factory fails a placeholder, the literal \<open>ClientConn{pool: p}\<close> of lines 210-212
  with every other field at its zero value, is sent to the channel.\<close>

definition placeholder :: ClientConn where
  "placeholder = \<lparr>ClientConn = None, pool = Some ThePool, timeUsed = 0, timeInitiated = 0,
                   unhealthy = False, concurrency = None\<rparr>"

definition Get_create ::
  "ClientConn \<Rightarrow> ClientConn chan \<Rightarrow> int \<Rightarrow> Pool \<Rightarrow> env \<Rightarrow> get_result" where
  "Get_create wrapper q now p e =
     (if ClientConn wrapper = None then
        (case factory p (calls e) of (c, err) \<Rightarrow>
           (let e1 = e\<lparr>calls := Suc (calls e)\<rparr>;
                wrapper1 = wrapper\<lparr>ClientConn := c\<rparr>
            in if err \<noteq> None then
                 (case send q placeholder of
                    None \<Rightarrow> Blocked (p\<lparr>clients := Some q\<rparr>) e1
                  | Some q' \<Rightarrow> Get_increment (wrapper1\<lparr>timeInitiated := now\<rparr>) err q' p e1)
               else Get_increment (wrapper1\<lparr>timeInitiated := now\<rparr>) err q p e1))
      else Get_increment wrapper None q p e)"

text \<open>Lines 193-202: a connection that was idle too long is closed and dropped.\<close>

definition Get_idle ::
  "ClientConn \<Rightarrow> ClientConn chan \<Rightarrow> int \<Rightarrow> Pool \<Rightarrow> env \<Rightarrow> get_result" where
  "Get_idle wrapper q now p e =
     (case ClientConn wrapper of
        None \<Rightarrow> Get_create wrapper q now p e
      | Some k \<Rightarrow>
          (if idleTimeout p > 0 \<and> timeUsed wrapper + idleTimeout p < now
           then Get_create (wrapper\<lparr>ClientConn := None\<rparr>) q now p (grpc_Close k e)
           else Get_create wrapper q now p e))"

text \<open>\<open>Get\<close>: lines 176-191, then the stages above. The wrapper allocated before the
  \<open>select\<close> is overwritten by the receive; its counter cell stays allocated.\<close>

definition Get :: "ctx \<Rightarrow> bool \<Rightarrow> int \<Rightarrow> Pool \<Rightarrow> env \<Rightarrow> get_result" where
  "Get ctx pick now p e =
     (case getClients p of
        None \<Rightarrow> Returned None (Some ErrClosed) p e
      | Some clients0 \<Rightarrow>
          (case new_counter e of (a, e0) \<Rightarrow>
             (case select_recv clients0 ctx pick of
                Waits \<Rightarrow> Blocked p e0
              | CtxDone \<Rightarrow> Returned None (Some ErrTimeout) p e0
              | Received wrapper q \<Rightarrow> Get_idle wrapper q now p e0)))"

subsection \<open>The wrapper's methods\<close>

definition Unhealthy :: "ClientConn \<Rightarrow> ClientConn" where
  "Unhealthy c = c\<lparr>unhealthy := True\<rparr>"

definition Concurrency :: "ClientConn \<Rightarrow> env \<Rightarrow> 32 word option" where
  "Concurrency c e = Counter_Get (concurrency c) e"

datatype close_result =
  CReturned "error option" "ClientConn option" Pool env
| CBlocked ClientConn Pool env
| CPanicked ClientConn Pool env

text \<open>
  Lines 264-284 of \<open>Close\<close>, after the counter went down and the age was checked: the
  clone \<open>wrapper\<close> is closed, or sent to \<open>unhealthyClients\<close>, or (healthy) gets the
  initiation time of \<open>c\<close>; in the first and the last case the clone is a local
  variable that nothing reads afterwards. A send on a nil channel waits forever.
\<close>

definition Close_dispose :: "ClientConn \<Rightarrow> int \<Rightarrow> Pool \<Rightarrow> env \<Rightarrow> close_result" where
  "Close_dispose c now p e =
     (let wrapper = \<lparr>ClientConn = ClientConn c, pool = pool c, timeUsed = now,
                     timeInitiated = 0, unhealthy = False, concurrency = concurrency c\<rparr>
      in if unhealthy c then
           (case Counter_Get (concurrency c) e of
              None \<Rightarrow> CPanicked c p e
            | Some n \<Rightarrow>
                if n = 0 then
                  (case ClientConn wrapper of
                     None \<Rightarrow> CPanicked c p e
                   | Some k \<Rightarrow> CReturned None (Some (c\<lparr>ClientConn := None\<rparr>)) p (grpc_Close k e))
                else
                  (case unhealthyClients p of
                     None \<Rightarrow> CBlocked c p e
                   | Some u \<Rightarrow>
                       (case send u wrapper of
                          None \<Rightarrow> CBlocked c p e
                        | Some u' \<Rightarrow>
                            CReturned None (Some (c\<lparr>ClientConn := None\<rparr>))
                              (p\<lparr>unhealthyClients := Some u'\<rparr>) e)))
         else CReturned None (Some (c\<lparr>ClientConn := None\<rparr>)) p e)"

text \<open>\<open>(*ClientConn).Close\<close>, on a receiver that may be nil.\<close>

definition ClientConn_Close :: "int \<Rightarrow> ClientConn option \<Rightarrow> Pool \<Rightarrow> env \<Rightarrow> close_result" where
  "ClientConn_Close now r p e =
     (case r of
        None \<Rightarrow> CReturned None None p e
      | Some c \<Rightarrow>
          if ClientConn c = None then CReturned (Some ErrAlreadyClosed) (Some c) p e
          else if IsClosed (pool c) p then CReturned (Some ErrClosed) (Some c) p e
          else
            (case Decrement (concurrency c) e of
               None \<Rightarrow> CPanicked c p e
             | Some e1 \<Rightarrow>
                 (let maxDuration = maxLifeDuration p;
                      c1 = (if maxDuration > 0 \<and> timeInitiated c + maxDuration < now
                            then Unhealthy c else c)
                  in Close_dispose c1 now p e1)))"

subsection \<open>Observations\<close>

text \<open>What a caller or a test can see of a result: the pool and the environment a call
  leaves behind, the wrapper and the error it returns, the contents of the two
  channels.\<close>

definition queue :: "Pool \<Rightarrow> ClientConn list" where
  "queue p = (case clients p of None \<Rightarrow> [] | Some q \<Rightarrow> buf q)"

definition quarantine :: "Pool \<Rightarrow> ClientConn list" where
  "quarantine p = (case unhealthyClients p of None \<Rightarrow> [] | Some q \<Rightarrow> buf q)"

text \<open>\<open>cap(p.unhealthyClients)\<close>; the capacity of a nil channel is 0.\<close>

definition quarantine_cap :: "Pool \<Rightarrow> nat" where
  "quarantine_cap p = (case unhealthyClients p of None \<Rightarrow> 0 | Some q \<Rightarrow> cap q)"

fun new_pool :: "new_result \<Rightarrow> Pool option" where
  "new_pool (NewReturned p err e) = p"
| "new_pool (NewBlocked e) = None"
| "new_pool (NewPanicked e) = None"

fun new_error :: "new_result \<Rightarrow> error option" where
  "new_error (NewReturned p err e) = err"
| "new_error (NewBlocked e) = None"
| "new_error (NewPanicked e) = None"

fun new_env :: "new_result \<Rightarrow> env" where
  "new_env (NewReturned p err e) = e"
| "new_env (NewBlocked e) = e"
| "new_env (NewPanicked e) = e"

fun new_panics :: "new_result \<Rightarrow> bool" where
  "new_panics (NewReturned p err e) = False"
| "new_panics (NewBlocked e) = False"
| "new_panics (NewPanicked e) = True"

fun get_pool :: "get_result \<Rightarrow> Pool" where
  "get_pool (Returned h err p e) = p"
| "get_pool (Blocked p e) = p"
| "get_pool (Panicked p e) = p"

fun get_env :: "get_result \<Rightarrow> env" where
  "get_env (Returned h err p e) = e"
| "get_env (Blocked p e) = e"
| "get_env (Panicked p e) = e"

fun get_handle :: "get_result \<Rightarrow> ClientConn option" where
  "get_handle (Returned h err p e) = h"
| "get_handle (Blocked p e) = None"
| "get_handle (Panicked p e) = None"

fun get_error :: "get_result \<Rightarrow> error option" where
  "get_error (Returned h err p e) = err"
| "get_error (Blocked p e) = None"
| "get_error (Panicked p e) = None"

fun get_returns :: "get_result \<Rightarrow> bool" where
  "get_returns (Returned h err p e) = True"
| "get_returns (Blocked p e) = False"
| "get_returns (Panicked p e) = False"

fun get_blocks :: "get_result \<Rightarrow> bool" where
  "get_blocks (Returned h err p e) = False"
| "get_blocks (Blocked p e) = True"
| "get_blocks (Panicked p e) = False"

fun get_panics :: "get_result \<Rightarrow> bool" where
  "get_panics (Returned h err p e) = False"
| "get_panics (Blocked p e) = False"
| "get_panics (Panicked p e) = True"

fun close_pool :: "close_result \<Rightarrow> Pool" where
  "close_pool (CReturned err h p e) = p"
| "close_pool (CBlocked c p e) = p"
| "close_pool (CPanicked c p e) = p"

fun close_env :: "close_result \<Rightarrow> env" where
  "close_env (CReturned err h p e) = e"
| "close_env (CBlocked c p e) = e"
| "close_env (CPanicked c p e) = e"

fun close_handle :: "close_result \<Rightarrow> ClientConn option" where
  "close_handle (CReturned err h p e) = h"
| "close_handle (CBlocked c p e) = Some c"
| "close_handle (CPanicked c p e) = Some c"

fun close_error :: "close_result \<Rightarrow> error option" where
  "close_error (CReturned err h p e) = err"
| "close_error (CBlocked c p e) = None"
| "close_error (CPanicked c p e) = None"

fun close_returns :: "close_result \<Rightarrow> bool" where
  "close_returns (CReturned err h p e) = True"
| "close_returns (CBlocked c p e) = False"
| "close_returns (CPanicked c p e) = False"

text \<open>The handles that callers hold and have not released yet.\<close>

definition outstandingCheckouts :: "ClientConn list \<Rightarrow> nat" where
  "outstandingCheckouts hs = length (filter (\<lambda>h. ClientConn h \<noteq> None) hs)"

subsection \<open>Reachable states\<close>

text \<open>
  The states that calls made one after the other reach, with the wrappers the callers
  hold: a pool comes from \<open>NewWithContext\<close>; then \<open>Get\<close>, \<open>Unhealthy\<close> and \<open>Close\<close>
  on a wrapper held, and \<open>Close\<close> on the pool, in any order, at any clock values, each
  call returning before the next one starts. The first argument is the capacity the
  pool was built with, after the coercion of line 86.
\<close>

inductive reachable :: "nat \<Rightarrow> Pool \<Rightarrow> env \<Rightarrow> ClientConn list \<Rightarrow> bool" where
  r_new: "NewWithContext fac init capacity idle maxLife now e0 = NewReturned (Some p) None e
      \<Longrightarrow> reachable (nat (sint (if sint capacity \<le> 0 then 1 else capacity))) p e []"
| r_get: "reachable n p e hs \<Longrightarrow> Get ctx pick now p e = Returned (Some h) err p' e'
      \<Longrightarrow> reachable n p' e' (hs @ [h])"
| r_get_nil: "reachable n p e hs \<Longrightarrow> Get ctx pick now p e = Returned None err p' e'
      \<Longrightarrow> reachable n p' e' hs"
| r_unhealthy: "reachable n p e hs \<Longrightarrow> i < length hs
      \<Longrightarrow> reachable n p e (hs[i := Unhealthy (hs ! i)])"
| r_release: "reachable n p e hs \<Longrightarrow> i < length hs
      \<Longrightarrow> ClientConn_Close now (Some (hs ! i)) p e = CReturned err (Some h') p' e'
      \<Longrightarrow> reachable n p' e' (hs[i := h'])"
| r_close: "reachable n p e hs \<Longrightarrow> Pool_Close p e = (p', e')
      \<Longrightarrow> reachable n p' e' hs"

subsection \<open>The invariant of the main channel\<close>

text \<open>Between calls the channel \<open>clients\<close> of an open pool is full and holds no wrapper
  marked unhealthy; a closed pool has lost both channels.\<close>

definition pool_inv :: "nat \<Rightarrow> Pool \<Rightarrow> bool" where
  "pool_inv n p =
     (case clients p of
        None \<Rightarrow> unhealthyClients p = None
      | Some q \<Rightarrow> cap q = n \<and> length (buf q) = n \<and> (\<forall>x \<in> set (buf q). \<not> unhealthy x))"

subsection \<open>Concrete runs\<close>

text \<open>A fresh environment on a machine that allocates every channel the runtime
  accepts, and a factory like the tests' \<open>grpc.Dial\<close>: every call succeeds with a new
  connection, numbered by the call.\<close>

definition env0 :: env where
  "env0 = \<lparr>counters = (\<lambda>a. 0), nextCounter = 0, calls = 0, closedConns = [],
            chanMax = 3518437208882\<rparr>"

definition dial :: Factory where
  "dial = (\<lambda>i. (Some i, None))"

text \<open>A factory whose first call fails and whose later calls succeed.\<close>

definition dial_fails_once :: Factory where
  "dial_fails_once = (\<lambda>i. if i = 0 then (None, Some (FactoryError 0)) else (Some i, None))"

text \<open>The wrappers a caller holds after a \<open>Get\<close>.\<close>

definition held :: "ClientConn option \<Rightarrow> ClientConn list" where
  "held r = (case r of None \<Rightarrow> [] | Some h \<Rightarrow> [h])"

text \<open>\<open>TestNew\<close>: \<open>New(dial, 1, 3, 0)\<close>, one \<open>Get\<close>, \<open>Close\<close> on the client, \<open>Close\<close>
  on it again.\<close>

definition tn_new :: new_result where
  "tn_new = NewWithContext dial 1 3 0 [] 100 env0"

definition tn_pool :: Pool where
  "tn_pool = the (new_pool tn_new)"

definition tn_get :: get_result where
  "tn_get = Get Background True 200 tn_pool (new_env tn_new)"

definition tn_release :: close_result where
  "tn_release = ClientConn_Close 300 (get_handle tn_get) (get_pool tn_get) (get_env tn_get)"

definition tn_release2 :: close_result where
  "tn_release2 =
     ClientConn_Close 400 (close_handle tn_release) (close_pool tn_release) (close_env tn_release)"

text \<open>\<open>TestTimeout\<close>: \<open>New(dial, 1, 1, 0)\<close>, one \<open>Get\<close>, and a second \<open>Get\<close> with a
  deadline while the first client is out.\<close>

definition tt_new :: new_result where
  "tt_new = NewWithContext dial 1 1 0 [] 100 env0"

definition tt_get :: get_result where
  "tt_get = Get Background True 200 (the (new_pool tt_new)) (new_env tt_new)"

definition tt_get2 :: get_result where
  "tt_get2 = Get Pending True 210 (get_pool tt_get) (get_env tt_get)"

text \<open>\<open>TestMaxLifeDuration\<close>: \<open>New(dial, 1, 1, 0, 1)\<close> (a maximum life of 1ns), \<open>Get\<close>,
  \<open>Close\<close> on the client, and one more \<open>Get\<close>.\<close>

definition ml_new :: new_result where
  "ml_new = NewWithContext dial 1 1 0 [1] 100 env0"

definition ml_get :: get_result where
  "ml_get = Get Background True 200 (the (new_pool ml_new)) (new_env ml_new)"

definition ml_release :: close_result where
  "ml_release = ClientConn_Close 300 (get_handle ml_get) (get_pool ml_get) (get_env ml_get)"

definition ml_get2 :: get_result where
  "ml_get2 = Get Background True 400 (close_pool ml_release) (close_env ml_release)"

text \<open>An idle timeout of 10ns: \<open>New(dial, 1, 1, 10)\<close> at time 100, \<open>Get\<close> at 105,
  \<open>Close\<close> on the client at 108, \<open>Get\<close> at 112, four nanoseconds after the release.\<close>

definition it_new :: new_result where
  "it_new = NewWithContext dial 1 1 10 [] 100 env0"

definition it_get :: get_result where
  "it_get = Get Background True 105 (the (new_pool it_new)) (new_env it_new)"

definition it_release :: close_result where
  "it_release = ClientConn_Close 108 (get_handle it_get) (get_pool it_get) (get_env it_get)"

definition it_get2 :: get_result where
  "it_get2 = Get Background True 112 (close_pool it_release) (close_env it_release)"

text \<open>A factory failure: \<open>New(dial_fails_once, 0, 1, 0)\<close>, then a \<open>Get\<close> whose factory
  call fails; then a \<open>Get\<close> by a second goroutine, made while the first one waits in
  its send.\<close>

definition ff_new :: new_result where
  "ff_new = NewWithContext dial_fails_once 0 1 0 [] 100 env0"

definition ff_get :: get_result where
  "ff_get = Get Background True 200 (the (new_pool ff_new)) (new_env ff_new)"

definition ff_get2 :: get_result where
  "ff_get2 = Get Background True 300 (get_pool ff_get) (get_env ff_get)"

text \<open>The same factory failure on a pool of capacity 2, in the state in which another
  goroutine's \<open>Get\<close> has received the first wrapper and has not sent it back yet.\<close>

definition fc_new :: new_result where
  "fc_new = NewWithContext dial_fails_once 0 2 0 [] 100 env0"

definition fc_taken :: Pool where
  "fc_taken =
     (the (new_pool fc_new))
       \<lparr>clients := map_option (\<lambda>q. q\<lparr>buf := tl (buf q)\<rparr>) (clients (the (new_pool fc_new)))\<rparr>"

definition fc_get :: get_result where
  "fc_get = Get Background True 200 fc_taken (new_env fc_new)"

text \<open>Two clients on one connection: \<open>New(dial, 1, 1, 0)\<close>, two \<open>Get\<close>s, the first
  client marked unhealthy and closed while the second is out; then the pool closed.\<close>

definition qr_new :: new_result where
  "qr_new = NewWithContext dial 1 1 0 [] 100 env0"

definition qr_get1 :: get_result where
  "qr_get1 = Get Background True 200 (the (new_pool qr_new)) (new_env qr_new)"

definition qr_get2 :: get_result where
  "qr_get2 = Get Background True 210 (get_pool qr_get1) (get_env qr_get1)"

definition qr_release :: close_result where
  "qr_release =
     ClientConn_Close 300 (map_option Unhealthy (get_handle qr_get1))
       (get_pool qr_get2) (get_env qr_get2)"

definition qr_closed :: "Pool \<times> env" where
  "qr_closed = Pool_Close (close_pool qr_release) (close_env qr_release)"

text \<open>The same run going on without closing the pool: a third \<open>Get\<close>, then the second
  client marked unhealthy and closed while the third is out.\<close>

definition qr_get3 :: get_result where
  "qr_get3 = Get Background True 310 (close_pool qr_release) (close_env qr_release)"

definition qr_release2 :: close_result where
  "qr_release2 =
     ClientConn_Close 320 (map_option Unhealthy (get_handle qr_get2))
       (get_pool qr_get3) (get_env qr_get3)"

text \<open>Two clients on one connection and an idle timeout of 10ns: \<open>New(dial, 1, 1, 10)\<close>
  at time 100, \<open>Get\<close> at 101 and at 102, the first client marked unhealthy and closed
  at 103 while the second is out, and a third \<open>Get\<close> at 120.\<close>

definition ie_new :: new_result where
  "ie_new = NewWithContext dial 1 1 10 [] 100 env0"

definition ie_get1 :: get_result where
  "ie_get1 = Get Background True 101 (the (new_pool ie_new)) (new_env ie_new)"

definition ie_get2 :: get_result where
  "ie_get2 = Get Background True 102 (get_pool ie_get1) (get_env ie_get1)"

definition ie_release :: close_result where
  "ie_release =
     ClientConn_Close 103 (map_option Unhealthy (get_handle ie_get1))
       (get_pool ie_get2) (get_env ie_get2)"

definition ie_get3 :: get_result where
  "ie_get3 = Get Background True 120 (close_pool ie_release) (close_env ie_release)"

text \<open>The largest capacity an \<open>int\<close> can ask for: \<open>New(dial, 1, math.MaxInt64, 0)\<close>.\<close>

definition big_new :: new_result where
  "big_new = NewWithContext dial 1 9223372036854775807 0 [] 100 env0"

text \<open>A closed pool: \<open>TestNew\<close>'s pool after its \<open>Get\<close>, closed while the client is
  out; then \<open>Close\<close> on the client.\<close>

definition cp_closed :: "Pool \<times> env" where
  "cp_closed = Pool_Close (get_pool tn_get) (get_env tn_get)"

definition cp_release :: close_result where
  "cp_release = ClientConn_Close 300 (get_handle tn_get) (fst cp_closed) (snd cp_closed)"

section \<open>Lemmas\<close>

subsection \<open>What a returning Get has done\<close>

lemma Get_requeue_Returned:
  "Get_requeue w err q p e = Returned h err' p' e' \<Longrightarrow>
     h = Some w \<and> err' = err \<and> e' = e \<and>
     (\<not> unhealthy w \<longrightarrow> length (buf q) < cap q) \<and>
     p' = p\<lparr>clients := Some (q\<lparr>buf := buf q @ (if unhealthy w then [] else [w])\<rparr>)\<rparr>"
  by (auto simp: Get_requeue_def send_def split: if_splits option.splits)

lemma Get_increment_Returned:
  "Get_increment w err q p e = Returned h err' p' e' \<Longrightarrow>
     h = Some w \<and> err' = err \<and> calls e' = calls e \<and> closedConns e' = closedConns e \<and>
     (\<not> unhealthy w \<longrightarrow> length (buf q) < cap q) \<and>
     p' = p\<lparr>clients := Some (q\<lparr>buf := buf q @ (if unhealthy w then [] else [w])\<rparr>)\<rparr>"
  by (auto simp: Get_increment_def Increment_def split: if_splits option.splits dest!: Get_requeue_Returned)

lemma Get_create_Returned:
  assumes "Get_create w q now p e = Returned h err p' e'"
  shows "\<exists>w'. h = Some w' \<and> unhealthy w' = unhealthy w \<and> concurrency w' = concurrency w \<and>
     (err \<noteq> None \<or> \<not> unhealthy w' \<longrightarrow>
        length (buf q @ (if err = None then [] else [placeholder]) @ (if unhealthy w' then [] else [w'])) \<le> cap q) \<and>
     p' = p\<lparr>clients := Some (q\<lparr>buf := buf q @ (if err = None then [] else [placeholder]) @ (if unhealthy w' then [] else [w'])\<rparr>)\<rparr>"
proof (cases "ClientConn w = None")
  case False
  with assms have "Get_increment w None q p e = Returned h err p' e'"
    by (auto simp add: Get_create_def)
  from Get_increment_Returned[OF this] show ?thesis by auto
next
  case True
  obtain c er where f: "factory p (calls e) = (c, er)" by (cases "factory p (calls e)")
  show ?thesis
  proof (cases er)
    case None
    then have "Get_increment (w\<lparr>ClientConn := c, timeInitiated := now\<rparr>) None q p (e\<lparr>calls := Suc (calls e)\<rparr>) = Returned h err p' e'"
      using assms True f by (simp add: Get_create_def Let_def)
    from Get_increment_Returned[OF this] show ?thesis by auto
  next
    case (Some x)
    then obtain q' where s: "send q placeholder = Some q'"
      and g: "Get_increment (w\<lparr>ClientConn := c, timeInitiated := now\<rparr>) (Some x) q' p (e\<lparr>calls := Suc (calls e)\<rparr>) = Returned h err p' e'"
      using assms True f by (auto simp add: Get_create_def Let_def split: option.splits)
    have q': "q' = q\<lparr>buf := buf q @ [placeholder]\<rparr>" and room: "length (buf q) < cap q"
      using s by (auto simp: send_def split: if_splits)
    from Get_increment_Returned[OF g] room show ?thesis by (auto simp: q')
  qed
qed

lemma Get_idle_Returned:
  assumes "Get_idle w q now p e = Returned h err p' e'"
  shows "\<exists>w'. h = Some w' \<and> unhealthy w' = unhealthy w \<and> concurrency w' = concurrency w \<and>
     (err \<noteq> None \<or> \<not> unhealthy w' \<longrightarrow>
        length (buf q @ (if err = None then [] else [placeholder]) @ (if unhealthy w' then [] else [w'])) \<le> cap q) \<and>
     p' = p\<lparr>clients := Some (q\<lparr>buf := buf q @ (if err = None then [] else [placeholder]) @ (if unhealthy w' then [] else [w'])\<rparr>)\<rparr>"
proof -
  have "\<exists>w1 e1. unhealthy w1 = unhealthy w \<and> concurrency w1 = concurrency w \<and>
          Get_create w1 q now p e1 = Returned h err p' e'"
  proof (cases "ClientConn w")
    case None
    then have "Get_create w q now p e = Returned h err p' e'"
      using assms by (simp add: Get_idle_def)
    then show ?thesis by blast
  next
    case (Some k)
    show ?thesis
    proof (cases "idleTimeout p > 0 \<and> timeUsed w + idleTimeout p < now")
      case True
      then have "Get_create (w\<lparr>ClientConn := None\<rparr>) q now p (grpc_Close k e) = Returned h err p' e'"
        using assms Some by (simp add: Get_idle_def)
      moreover have "unhealthy (w\<lparr>ClientConn := None\<rparr>) = unhealthy w"
        "concurrency (w\<lparr>ClientConn := None\<rparr>) = concurrency w" by simp_all
      ultimately show ?thesis by blast
    next
      case False
      then have "Get_create w q now p e = Returned h err p' e'"
        using assms Some by (auto simp add: Get_idle_def split: if_splits)
      then show ?thesis by blast
    qed
  qed
  then obtain w1 e1 where w1: "unhealthy w1 = unhealthy w" "concurrency w1 = concurrency w"
    and g: "Get_create w1 q now p e1 = Returned h err p' e'" by blast
  from Get_create_Returned[OF g] show ?thesis using w1 by simp
qed

lemma Get_Returned_Some:
  assumes "Get ctx pick now p e = Returned (Some h) err p' e'"
  shows "\<exists>q w rest. clients p = Some q \<and> buf q = w # rest \<and> unhealthy h = unhealthy w \<and>
     concurrency h = concurrency w \<and>
     (err \<noteq> None \<or> \<not> unhealthy h \<longrightarrow>
        length (rest @ (if err = None then [] else [placeholder]) @ (if unhealthy h then [] else [h])) \<le> cap q) \<and>
     p' = p\<lparr>clients := Some (q\<lparr>buf := rest @ (if err = None then [] else [placeholder]) @ (if unhealthy h then [] else [h])\<rparr>)\<rparr>"
proof -
  from assms obtain q where q: "clients p = Some q"
    by (auto simp: Get_def getClients_def split: option.splits)
  obtain a e0 where a: "new_counter e = (a, e0)" by (cases "new_counter e")
  from assms q a obtain w q1 where s: "select_recv q ctx pick = Received w q1"
    and g: "Get_idle w q1 now p e0 = Returned (Some h) err p' e'"
    by (auto simp: Get_def getClients_def split: selected.splits)
  from s obtain rest where r: "buf q = w # rest" "q1 = q\<lparr>buf := rest\<rparr>"
    by (auto simp: select_recv_def split: list.splits if_splits)
  from Get_idle_Returned[OF g] show ?thesis using q r by auto
qed

lemma Get_Returned_None:
  assumes "Get ctx pick now p e = Returned None err p' e'"
  shows "p' = p \<and> (err = Some ErrClosed \<or> err = Some ErrTimeout)"
proof (cases "clients p")
  case None
  then show ?thesis using assms by (simp add: Get_def getClients_def)
next
  case (Some q)
  obtain a e0 where a: "new_counter e = (a, e0)" by (cases "new_counter e")
  show ?thesis using assms Some a
    by (auto simp: Get_def getClients_def split: selected.splits dest!: Get_idle_Returned)
qed

subsection \<open>The invariant holds in every reachable state\<close>

lemma new_counter_calls: "new_counter e = (a, e') \<Longrightarrow> calls e' = calls e \<and> closedConns e' = closedConns e"
  by (auto simp: new_counter_def)

lemma send_SomeD: "send q x = Some q' \<Longrightarrow> q' = q\<lparr>buf := buf q @ [x]\<rparr> \<and> length (buf q) < cap q"
  by (auto simp: send_def split: if_splits)

lemma warm_LoopOk:
  "warm f n now q e = LoopOk q' e' \<Longrightarrow>
     cap q' = cap q \<and> length (buf q') = length (buf q) + n \<and>
     (\<forall>x \<in> set (buf q'). x \<in> set (buf q) \<or> \<not> unhealthy x)"
proof (induction n arbitrary: q e)
  case 0
  then show ?case by simp
next
  case (Suc n)
  obtain c err where f: "f (calls e) = (c, err)" by (cases "f (calls e)")
  obtain a e2 where a: "new_counter (e\<lparr>calls := Suc (calls e)\<rparr>) = (a, e2)"
    by (cases "new_counter (e\<lparr>calls := Suc (calls e)\<rparr>)")
  from Suc.prems f a obtain q1 where
    s: "send q \<lparr>ClientConn = c, pool = Some ThePool, timeUsed = now, timeInitiated = now,
                 unhealthy = False, concurrency = Some a\<rparr> = Some q1"
    and w: "warm f n now q1 e2 = LoopOk q' e'"
    by (auto simp: Let_def split: option.splits)
  from Suc.IH[OF w] send_SomeD[OF s] show ?case by auto
qed

lemma fill_LoopOk:
  "fill n q e = LoopOk q' e' \<Longrightarrow>
     cap q' = cap q \<and> length (buf q') = length (buf q) + n \<and>
     (\<forall>x \<in> set (buf q'). x \<in> set (buf q) \<or> \<not> unhealthy x)"
proof (induction n arbitrary: q e)
  case 0
  then show ?case by simp
next
  case (Suc n)
  obtain a e1 where a: "new_counter e = (a, e1)" by (cases "new_counter e")
  from Suc.prems a obtain q1 where
    s: "send q \<lparr>ClientConn = None, pool = Some ThePool, timeUsed = 0, timeInitiated = 0,
                 unhealthy = False, concurrency = Some a\<rparr> = Some q1"
    and w: "fill n q1 e1 = LoopOk q' e'"
    by (auto split: option.splits)
  from Suc.IH[OF w] send_SomeD[OF s] show ?case by auto
qed

lemma sint_sub_no_wrap:
  fixes a b :: "64 word"
  assumes "0 \<le> sint b" and "sint b \<le> sint a"
  shows "sint (a - b) = sint a - sint b"
proof -
  have "sint a < 2 ^ 63"
    using sint_lt [of a] by simp
  with assms have "- (2 ^ 63) \<le> sint a - sint b" and "sint a - sint b < 2 ^ 63"
    by simp_all
  then have "signed_take_bit 63 (sint a - sint b) = sint a - sint b"
    by (simp add: signed_take_bit_int_eq_self)
  then show ?thesis
    by (simp add: sint_word_ariths)
qed

lemma make_chan_SomeD:
  "make_chan n e = Some q \<Longrightarrow> buf q = [] \<and> cap q = nat n \<and> 0 \<le> n \<and> n \<le> chanMax e"
  by (auto simp: make_chan_def split: if_splits)

lemma NewWithContext_inv:
  assumes "NewWithContext fac init capacity idle maxLife now e0 = NewReturned (Some p) err e"
  shows "pool_inv (nat (sint (if sint capacity \<le> 0 then 1 else capacity))) p"
proof -
  define c1 :: "64 word" where "c1 = (if sint capacity \<le> 0 then 1 else capacity)"
  define i1 :: "64 word" where "i1 = (if sint init < 0 then 0 else init)"
  define i2 :: "64 word" where "i2 = (if sint i1 > sint c1 then c1 else i1)"
  have le: "0 \<le> sint i2" "sint i2 \<le> sint c1" "1 \<le> sint c1"
    by (auto simp: c1_def i1_def i2_def)
  have d: "sint (c1 - i2) = sint c1 - sint i2"
    using sint_sub_no_wrap le by simp
  from assms obtain q0 q1 e1 q2 where
    m: "make_chan (sint c1) e0 = Some q0"
    and w: "warm fac (nat (sint i2)) now q0 e0 = LoopOk q1 e1"
    and f: "fill (nat (sint (c1 - i2))) q1 e1 = LoopOk q2 e"
    and p: "clients p = Some q2"
    unfolding NewWithContext_def c1_def[symmetric] i1_def[symmetric] Let_def i2_def[symmetric]
    by (auto split: option.splits loop_result.splits list.splits)
  from warm_LoopOk[OF w] fill_LoopOk[OF f] make_chan_SomeD[OF m] le d p show ?thesis
    unfolding pool_inv_def c1_def[symmetric] by (auto simp: nat_diff_distrib)
qed

lemma Close_dispose_clients: "clients (close_pool (Close_dispose c now p e)) = clients p"
  by (auto simp: Close_dispose_def Let_def split: option.splits)

lemma ClientConn_Close_clients: "clients (close_pool (ClientConn_Close now r p e)) = clients p"
  by (auto simp: ClientConn_Close_def Let_def Close_dispose_clients split: option.splits)

lemma ClientConn_Close_inv:
  assumes "ClientConn_Close now r p e = CReturned err h p' e'" "pool_inv n p"
  shows "pool_inv n p'"
proof -
  have c: "clients p' = clients p" using ClientConn_Close_clients[of now r p e] assms(1) by simp
  show ?thesis
  proof (cases "clients p")
    case None
    then have "p' = p" using assms(1)
      by (auto simp: ClientConn_Close_def IsClosed_def getClients_def split: option.splits if_splits)
    then show ?thesis using assms(2) by simp
  next
    case (Some q)
    then show ?thesis using assms(2) c by (simp add: pool_inv_def)
  qed
qed

lemma Get_inv:
  assumes "Get ctx pick now p e = Returned h err p' e'" "pool_inv n p"
  shows "pool_inv n p'"
proof (cases h)
  case None
  then show ?thesis using Get_Returned_None assms by blast
next
  case (Some w)
  from Get_Returned_Some[OF assms(1)[unfolded Some]] assms(2) show ?thesis
    by (auto simp: pool_inv_def split: if_splits)
qed

lemma reachable_inv: "reachable n p e hs \<Longrightarrow> pool_inv n p \<and> 1 \<le> n"
proof (induction rule: reachable.induct)
  case (r_new fac init capacity idle maxLife now e0 p e)
  then show ?case using NewWithContext_inv by auto
next
  case (r_get n p e hs ctx pick now h err p' e')
  then show ?case using Get_inv by blast
next
  case (r_get_nil n p e hs ctx pick now err p' e')
  then show ?case using Get_inv by blast
next
  case (r_unhealthy n p e hs i)
  then show ?case by simp
next
  case (r_release n p e hs i now err h' p' e')
  then show ?case using ClientConn_Close_inv by blast
next
  case (r_close n p e hs p' e')
  then show ?case by (auto simp: Pool_Close_def Let_def pool_inv_def)
qed

subsection \<open>The two loops of NewWithContext\<close>

lemma warm_all_succeed:
  "(\<forall>i < n. snd (f (calls e + i)) = None) \<Longrightarrow> length (buf q) + n \<le> cap q \<Longrightarrow>
   \<exists>q' e'. warm f n now q e = LoopOk q' e' \<and> calls e' = calls e + n \<and>
      closedConns e' = closedConns e \<and>
      map ClientConn (buf q') = map ClientConn (buf q) @ map (\<lambda>i. fst (f i)) [calls e ..< calls e + n]"
proof (induction n arbitrary: q e)
  case 0
  then show ?case by simp
next
  case (Suc n)
  obtain c where f: "f (calls e) = (c, None)"
    using Suc.prems(1)[rule_format, of 0] by (cases "f (calls e)") auto
  obtain a e2 where a: "new_counter (e\<lparr>calls := Suc (calls e)\<rparr>) = (a, e2)"
    by (cases "new_counter (e\<lparr>calls := Suc (calls e)\<rparr>)")
  have e2: "calls e2 = Suc (calls e)" "closedConns e2 = closedConns e"
    using new_counter_calls[OF a] by auto
  define x where "x = \<lparr>ClientConn = c, pool = Some ThePool, timeUsed = now, timeInitiated = now,
                 unhealthy = False, concurrency = Some a\<rparr>"
  have s: "send q x = Some (q\<lparr>buf := buf q @ [x]\<rparr>)"
    using Suc.prems(2) by (simp add: send_def)
  have step: "warm f (Suc n) now q e = warm f n now (q\<lparr>buf := buf q @ [x]\<rparr>) e2"
    using f a s by (simp add: x_def)
  have p1: "\<forall>i < n. snd (f (calls e2 + i)) = None"
    using Suc.prems(1) e2 by (metis Suc_less_eq add_Suc add_Suc_right)
  have p2: "length (buf (q\<lparr>buf := buf q @ [x]\<rparr>)) + n \<le> cap (q\<lparr>buf := buf q @ [x]\<rparr>)"
    using Suc.prems(2) by simp
  from Suc.IH[OF p1 p2] obtain q' e' where
    r: "warm f n now (q\<lparr>buf := buf q @ [x]\<rparr>) e2 = LoopOk q' e'" "calls e' = calls e2 + n"
       "closedConns e' = closedConns e2"
       "map ClientConn (buf q') = map ClientConn (buf (q\<lparr>buf := buf q @ [x]\<rparr>)) @ map (\<lambda>i. fst (f i)) [calls e2 ..< calls e2 + n]"
    by blast
  have "[calls e ..< calls e + Suc n] = calls e # [calls e2 ..< calls e2 + n]"
    using e2 by (simp add: upt_conv_Cons)
  then show ?case using r step e2 f by (simp add: x_def)
qed

lemma warm_first_failure:
  "k < n \<Longrightarrow> snd (f (calls e + k)) = Some er \<Longrightarrow> (\<forall>i < k. snd (f (calls e + i)) = None) \<Longrightarrow>
   length (buf q) + n \<le> cap q \<Longrightarrow>
   \<exists>e'. warm f n now q e = LoopErr er e' \<and> calls e' = calls e + k + 1 \<and> closedConns e' = closedConns e"
proof (induction n arbitrary: k q e)
  case 0
  then show ?case by simp
next
  case (Suc n)
  show ?case
  proof (cases k)
    case 0
    then obtain c where f: "f (calls e) = (c, Some er)"
      using Suc.prems(2) by (cases "f (calls e)") auto
    then show ?thesis using 0 by (simp add: Let_def)
  next
    case (Suc k')
    obtain c where f: "f (calls e) = (c, None)"
      using Suc.prems(3)[rule_format, of 0] Suc by (cases "f (calls e)") auto
    obtain a e2 where a: "new_counter (e\<lparr>calls := Suc (calls e)\<rparr>) = (a, e2)"
      by (cases "new_counter (e\<lparr>calls := Suc (calls e)\<rparr>)")
    have e2: "calls e2 = Suc (calls e)" "closedConns e2 = closedConns e"
      using new_counter_calls[OF a] by auto
    define x where "x = \<lparr>ClientConn = c, pool = Some ThePool, timeUsed = now, timeInitiated = now,
                 unhealthy = False, concurrency = Some a\<rparr>"
    have s: "send q x = Some (q\<lparr>buf := buf q @ [x]\<rparr>)"
      using Suc.prems(4) by (simp add: send_def)
    have step: "warm f (Suc n) now q e = warm f n now (q\<lparr>buf := buf q @ [x]\<rparr>) e2"
      using f a s by (simp add: x_def)
    have p1: "k' < n" using Suc.prems(1) Suc by simp
    have p2: "snd (f (calls e2 + k')) = Some er" using Suc.prems(2) Suc e2 by simp
    have p3: "\<forall>i < k'. snd (f (calls e2 + i)) = None"
      using Suc.prems(3) Suc e2 by (metis Suc_less_eq add_Suc add_Suc_right)
    have p4: "length (buf (q\<lparr>buf := buf q @ [x]\<rparr>)) + n \<le> cap (q\<lparr>buf := buf q @ [x]\<rparr>)"
      using Suc.prems(4) by simp
    from Suc.IH[OF p1 p2 p3 p4] show ?thesis using step e2 Suc by auto
  qed
qed

lemma fill_all:
  "length (buf q) + n \<le> cap q \<Longrightarrow>
   \<exists>q' e'. fill n q e = LoopOk q' e' \<and> calls e' = calls e \<and> closedConns e' = closedConns e \<and>
      map ClientConn (buf q') = map ClientConn (buf q) @ replicate n None"
proof (induction n arbitrary: q e)
  case 0
  then show ?case by simp
next
  case (Suc n)
  obtain a e1 where a: "new_counter e = (a, e1)" by (cases "new_counter e")
  have e1: "calls e1 = calls e" "closedConns e1 = closedConns e"
    using new_counter_calls[OF a] by auto
  define x where "x = \<lparr>ClientConn = None, pool = Some ThePool, timeUsed = 0, timeInitiated = 0,
                 unhealthy = False, concurrency = Some a\<rparr>"
  have s: "send q x = Some (q\<lparr>buf := buf q @ [x]\<rparr>)"
    using Suc.prems by (simp add: send_def)
  have step: "fill (Suc n) q e = fill n (q\<lparr>buf := buf q @ [x]\<rparr>) e1"
    using a s by (simp add: x_def)
  have p: "length (buf (q\<lparr>buf := buf q @ [x]\<rparr>)) + n \<le> cap (q\<lparr>buf := buf q @ [x]\<rparr>)"
    using Suc.prems by simp
  from Suc.IH[OF p, of e1] show ?case using step e1 by (auto simp: x_def replicate_app_Cons_same)
qed

subsection \<open>Close on a wrapper, Close on the pool, and the concrete runs\<close>

lemma new_result_returned:
  "new_pool r = Some p \<Longrightarrow> r = NewReturned (Some p) (new_error r) (new_env r)"
  by (cases r) auto

lemma get_result_returned:
  "get_returns r \<Longrightarrow> r = Returned (get_handle r) (get_error r) (get_pool r) (get_env r)"
  by (cases r) auto

lemma close_result_returned:
  "close_returns r \<Longrightarrow> r = CReturned (close_error r) (close_handle r) (close_pool r) (close_env r)"
  by (cases r) auto

lemma tn_new_eval:
  "tn_new = NewReturned (Some tn_pool) None (new_env tn_new)"
proof -
  have "new_pool tn_new \<noteq> None" and e: "new_error tn_new = None"
    by code_simp+
  then have "new_pool tn_new = Some tn_pool"
    by (auto simp: tn_pool_def)
  from new_result_returned [OF this] e show ?thesis by simp
qed

lemma tn_get_eval:
  "\<exists>h. get_handle tn_get = Some h \<and>
       tn_get = Returned (Some h) None (get_pool tn_get) (get_env tn_get)"
proof -
  have r: "get_returns tn_get" and "get_handle tn_get \<noteq> None" and "get_error tn_get = None"
    by code_simp+
  with get_result_returned [OF r] show ?thesis by auto
qed

lemma tn_release_eval:
  "\<exists>h'. close_handle tn_release = Some h' \<and>
       tn_release = CReturned None (Some h') (close_pool tn_release) (close_env tn_release)"
proof -
  have r: "close_returns tn_release" and "close_handle tn_release \<noteq> None"
    and "close_error tn_release = None"
    by code_simp+
  with close_result_returned [OF r] show ?thesis by auto
qed

lemma tn_reachable_new: "reachable 3 tn_pool (new_env tn_new) []"
proof -
  have "NewWithContext dial 1 3 0 [] 100 env0 = NewReturned (Some tn_pool) None (new_env tn_new)"
    using tn_new_eval by (simp add: tn_new_def)
  from r_new [OF this] show ?thesis by simp
qed

lemma tn_reachable_get:
  "reachable 3 (get_pool tn_get) (get_env tn_get) (held (get_handle tn_get))"
proof -
  obtain h where h: "get_handle tn_get = Some h"
    and r: "tn_get = Returned (Some h) None (get_pool tn_get) (get_env tn_get)"
    using tn_get_eval by blast
  have "Get Background True 200 tn_pool (new_env tn_new) =
        Returned (Some h) None (get_pool tn_get) (get_env tn_get)"
    using r by (simp add: tn_get_def)
  from r_get [OF tn_reachable_new this] h show ?thesis
    by (simp add: held_def)
qed

lemma tn_reachable_release:
  "reachable 3 (close_pool tn_release) (close_env tn_release) (held (close_handle tn_release))"
proof -
  obtain h where h: "get_handle tn_get = Some h"
    using tn_get_eval by blast
  obtain h' where h': "close_handle tn_release = Some h'"
    and r: "tn_release = CReturned None (Some h') (close_pool tn_release) (close_env tn_release)"
    using tn_release_eval by blast
  have "ClientConn_Close 300 (Some ([h] ! 0)) (get_pool tn_get) (get_env tn_get) =
        CReturned None (Some h') (close_pool tn_release) (close_env tn_release)"
    using r h by (simp add: tn_release_def)
  from r_release [OF _ _ this, of 3] tn_reachable_get h h' show ?thesis
    by (simp add: held_def)
qed

lemma drain_closedConns:
  "closedConns (drain xs e) = closedConns e @ List.map_filter ClientConn xs"
  by (induction xs arbitrary: e) (auto simp: List.map_filter_simps grpc_Close_def split: option.splits)

lemma Pool_Close_closedConns:
  "closedConns (snd (Pool_Close p e)) =
     closedConns e @ List.map_filter ClientConn (queue p) @ List.map_filter ClientConn (quarantine p)"
  by (auto simp: Pool_Close_def Let_def queue_def quarantine_def drain_closedConns
      List.map_filter_simps split: option.splits)

lemma Pool_Close_channels:
  "queue (fst (Pool_Close p e)) = [] \<and> quarantine (fst (Pool_Close p e)) = []"
  by (simp add: Pool_Close_def Let_def queue_def quarantine_def)

lemma ClientConn_Close_live:
  assumes "ClientConn c = Some k" and "\<not> IsClosed (pool c) p" and "concurrency c = Some a"
  shows "ClientConn_Close now (Some c) p e =
     Close_dispose
       (c\<lparr>unhealthy := unhealthy c \<or>
            (0 < maxLifeDuration p \<and> timeInitiated c + maxLifeDuration p < now)\<rparr>)
       now p (e\<lparr>counters := (counters e)(a := counters e a - 1)\<rparr>)"
proof -
  define b where "b = (0 < maxLifeDuration p \<and> timeInitiated c + maxLifeDuration p < now)"
  have "ClientConn_Close now (Some c) p e =
     Close_dispose (if b then Unhealthy c else c) now p
       (e\<lparr>counters := (counters e)(a := counters e a - 1)\<rparr>)"
    using assms by (simp add: ClientConn_Close_def Decrement_def Let_def b_def)
  moreover have "(if b then Unhealthy c else c) = c\<lparr>unhealthy := unhealthy c \<or> b\<rparr>"
    by (cases b) (simp_all add: Unhealthy_def)
  ultimately show ?thesis
    unfolding b_def by simp
qed

lemma Get_requeue_unhealthyClients:
  "unhealthyClients (get_pool (Get_requeue w err q p e)) = unhealthyClients p"
  by (simp add: Get_requeue_def split: option.splits)

lemma Get_increment_unhealthyClients:
  "unhealthyClients (get_pool (Get_increment w err q p e)) = unhealthyClients p"
  by (simp add: Get_increment_def Get_requeue_unhealthyClients split: option.splits)

lemma Get_create_unhealthyClients:
  "unhealthyClients (get_pool (Get_create w q now p e)) = unhealthyClients p"
  by (simp add: Get_create_def Let_def Get_increment_unhealthyClients
      split: option.splits prod.splits)

lemma Get_idle_unhealthyClients:
  "unhealthyClients (get_pool (Get_idle w q now p e)) = unhealthyClients p"
  by (simp add: Get_idle_def Get_create_unhealthyClients split: option.splits)

lemma Get_unhealthyClients:
  "unhealthyClients (get_pool (Get ctx pick now p e)) = unhealthyClients p"
  by (simp add: Get_def Get_idle_unhealthyClients split: option.splits prod.splits selected.splits)

text \<open>
  In a state reached by calls that return, made one after the other, a \<open>Get\<close> that
  returns a wrapper returns no error: the main channel is full between calls, and a
  \<open>Get\<close> whose factory call fails sends the placeholder and then the wrapper it
  received, the second send finding the channel full.
\<close>

lemma Get_reachable_no_error:
  assumes "reachable n p e hs" and "Get ctx pick now p e = Returned (Some h) err p' e'"
  shows "err = None"
proof -
  from reachable_inv [OF assms(1)] have inv: "pool_inv n p" by simp
  from Get_Returned_Some [OF assms(2)] obtain q w rest where
    q: "clients p = Some q" "buf q = w # rest" "unhealthy h = unhealthy w"
    and len: "err \<noteq> None \<or> \<not> unhealthy h \<longrightarrow>
        length (rest @ (if err = None then [] else [placeholder]) @
          (if unhealthy h then [] else [h])) \<le> cap q"
    by blast
  from inv q have "cap q = n" "length (buf q) = n" "\<not> unhealthy w"
    by (auto simp: pool_inv_def)
  with q len show ?thesis
    by (cases "err = None") auto
qed

text \<open>
  A \<open>Get\<close> that receives a wrapper without a connection and without a counter, and
  whose factory call gives a connection and no error, panics at line 220.
\<close>

lemma Get_nil_counter_panics:
  assumes "clients p = Some q" and "buf q = w # rest"
    and "ClientConn w = None" and "concurrency w = None"
    and "factory p (calls e) = (Some k, None)"
    and "ctx \<noteq> Expired \<or> pick"
  shows "get_panics (Get ctx pick now p e)"
proof -
  obtain a e0 where a: "new_counter e = (a, e0)"
    by (cases "new_counter e")
  have "calls e0 = calls e"
    using new_counter_calls [OF a] by simp
  moreover have "select_recv q ctx pick = Received w (q\<lparr>buf := rest\<rparr>)"
    using assms(2,6) by (auto simp: select_recv_def)
  ultimately show ?thesis
    using assms(1,3,4,5) a
    by (simp add: Get_def getClients_def Get_idle_def Get_create_def Let_def
        Get_increment_def Increment_def)
qed

text \<open>
  In every state reached by calls that return, made one after the other, \<open>Available()\<close>
  and \<open>Capacity()\<close> of an open pool both equal the capacity the pool was built with,
  whatever the number of handles checked out. After \<open>Close\<close> on the pool both are 0.
\<close>

lemma reachable_Available_eq_Capacity:
  assumes "reachable n p e hs"
  shows "1 \<le> n \<and>
    (\<not> IsClosed (Some ThePool) p \<longrightarrow> Available p = n \<and> Capacity p = n) \<and>
    Available (fst (Pool_Close p e)) = 0 \<and> Capacity (fst (Pool_Close p e)) = 0"
  using reachable_inv [OF assms]
  by (auto simp: pool_inv_def Available_def Capacity_def IsClosed_def getClients_def
      Pool_Close_def Let_def split: option.splits)

text \<open>
  What \<open>Close\<close> on a handle does by itself, for a handle that holds connection \<open>k\<close>
  and counter cell \<open>a\<close> in an open pool. Let \<open>u\<close> say that the handle is unhealthy
  when \<open>Close\<close> decides (marked before, or older than the maximum life) and \<open>n\<close> be
  what the shared counter reads after the decrement. \<open>Close\<close> closes a connection
  exactly when \<open>u\<close> holds and \<open>n\<close> is 0, and it is \<open>k\<close>. When \<open>u\<close> holds and \<open>n\<close> is
  not 0 it closes nothing; it appends a wrapper with connection \<open>k\<close> and counter \<open>a\<close>
  to the channel \<open>unhealthyClients\<close> when that channel has room, and does not return
  when it is full. It never changes the main channel; \<open>Get\<close> never changes
  \<open>unhealthyClients\<close>. \<open>Close\<close> on the pool closes every connection found in the
  main channel and then every one found in \<open>unhealthyClients\<close>.
\<close>

lemma Close_teardown_cases:
  fixes c :: ClientConn and p p2 :: Pool and e e2 :: env and now :: int
    and k :: grpc_conn and a :: counter_ref
  assumes "ClientConn c = Some k" and "\<not> IsClosed (pool c) p" and "concurrency c = Some a"
  defines "r \<equiv> ClientConn_Close now (Some c) p e"
    and "u \<equiv> unhealthy c \<or> (0 < maxLifeDuration p \<and> timeInitiated c + maxLifeDuration p < now)"
    and "n \<equiv> counters e a - 1"
  shows "closedConns (close_env r) = (if u \<and> n = 0 then closedConns e @ [k] else closedConns e) \<and>
    counters (close_env r) a = n \<and>
    queue (close_pool r) = queue p \<and>
    (u \<and> n = 0 \<longrightarrow>
       close_returns r \<and> close_error r = None \<and>
       map ClientConn (held (close_handle r)) = [None] \<and>
       quarantine (close_pool r) = quarantine p) \<and>
    (u \<and> n \<noteq> 0 \<and> length (quarantine p) < quarantine_cap p \<longrightarrow>
       close_returns r \<and> close_error r = None \<and>
       map ClientConn (held (close_handle r)) = [None] \<and>
       map ClientConn (quarantine (close_pool r)) = map ClientConn (quarantine p) @ [Some k] \<and>
       map concurrency (quarantine (close_pool r)) = map concurrency (quarantine p) @ [Some a]) \<and>
    (u \<and> n \<noteq> 0 \<and> \<not> length (quarantine p) < quarantine_cap p \<longrightarrow>
       \<not> close_returns r \<and> quarantine (close_pool r) = quarantine p) \<and>
    (\<not> u \<longrightarrow>
       close_returns r \<and> close_error r = None \<and>
       map ClientConn (held (close_handle r)) = [None] \<and>
       quarantine (close_pool r) = quarantine p) \<and>
    quarantine (get_pool (Get ctx pick now2 p2 e2)) = quarantine p2 \<and>
    closedConns (snd (Pool_Close p2 e2)) =
      closedConns e2 @ List.map_filter ClientConn (queue p2) @
      List.map_filter ClientConn (quarantine p2) \<and>
    queue (fst (Pool_Close p2 e2)) = [] \<and> quarantine (fst (Pool_Close p2 e2)) = []"
proof -
  define c1 where "c1 = c\<lparr>unhealthy := u\<rparr>"
  define e1 where "e1 = e\<lparr>counters := (counters e)(a := n)\<rparr>"
  have r: "r = Close_dispose c1 now p e1"
    unfolding r_def c1_def e1_def u_def n_def by (rule ClientConn_Close_live [OF assms(1-3)])
  have c1: "unhealthy c1 = u" "ClientConn c1 = Some k" "concurrency c1 = Some a"
    using assms(1,3) by (simp_all add: c1_def)
  have e1: "counters e1 a = n" "closedConns e1 = closedConns e"
    by (simp_all add: e1_def)
  have g: "Counter_Get (concurrency c1) e1 = Some n"
    using c1 e1 by (simp add: Counter_Get_def)
  have healthy: "r = CReturned None (Some (c1\<lparr>ClientConn := None\<rparr>)) p e1" if "\<not> u"
    using that c1 by (simp add: r Close_dispose_def Let_def)
  have zero: "r = CReturned None (Some (c1\<lparr>ClientConn := None\<rparr>)) p (grpc_Close k e1)"
    if "u" "n = 0"
    using that c1 g by (simp add: r Close_dispose_def Let_def)
  have nil: "r = CBlocked c1 p e1" if "u" "n \<noteq> 0" "unhealthyClients p = None"
    using that c1 g by (simp add: r Close_dispose_def Let_def)
  have full: "r = CBlocked c1 p e1"
    if "u" "n \<noteq> 0" "unhealthyClients p = Some uq" "\<not> length (buf uq) < cap uq" for uq
    using that c1 g by (simp add: r Close_dispose_def Let_def send_def)
  have room: "r = CReturned None (Some (c1\<lparr>ClientConn := None\<rparr>))
       (p\<lparr>unhealthyClients := Some (uq\<lparr>buf := buf uq @
          [\<lparr>ClientConn = Some k, pool = pool c1, timeUsed = now, timeInitiated = 0,
            unhealthy = False, concurrency = Some a\<rparr>]\<rparr>)\<rparr>) e1"
    if "u" "n \<noteq> 0" "unhealthyClients p = Some uq" "length (buf uq) < cap uq" for uq
    using that c1 g by (simp add: r Close_dispose_def Let_def send_def)
  have log: "closedConns (close_env r) =
      (if u \<and> n = 0 then closedConns e @ [k] else closedConns e)"
  proof (cases "u")
    case False
    then show ?thesis using healthy e1 by simp
  next
    case True
    show ?thesis
    proof (cases "n = 0")
      case True
      with \<open>u\<close> zero e1 show ?thesis by (simp add: grpc_Close_def)
    next
      case False
      show ?thesis
      proof (cases "unhealthyClients p")
        case None
        with \<open>u\<close> False nil e1 show ?thesis by simp
      next
        case (Some uq)
        with \<open>u\<close> False full [of uq] room [of uq] e1 show ?thesis
          by (cases "length (buf uq) < cap uq") simp_all
      qed
    qed
  qed
  have cnt: "counters (close_env r) a = n"
  proof (cases "u")
    case False
    then show ?thesis using healthy e1 by simp
  next
    case True
    show ?thesis
    proof (cases "n = 0")
      case True
      with \<open>u\<close> zero e1 show ?thesis by (simp add: grpc_Close_def)
    next
      case False
      show ?thesis
      proof (cases "unhealthyClients p")
        case None
        with \<open>u\<close> False nil e1 show ?thesis by simp
      next
        case (Some uq)
        with \<open>u\<close> False full [of uq] room [of uq] e1 show ?thesis
          by (cases "length (buf uq) < cap uq") simp_all
      qed
    qed
  qed
  have main: "queue (close_pool r) = queue p"
    using Close_dispose_clients [of c1 now p e1] by (simp add: r queue_def)
  have at_zero: "close_returns r \<and> close_error r = None \<and>
       map ClientConn (held (close_handle r)) = [None] \<and>
       quarantine (close_pool r) = quarantine p" if "u \<and> n = 0"
    using zero that by (simp add: held_def)
  have moved: "close_returns r \<and> close_error r = None \<and>
       map ClientConn (held (close_handle r)) = [None] \<and>
       map ClientConn (quarantine (close_pool r)) = map ClientConn (quarantine p) @ [Some k] \<and>
       map concurrency (quarantine (close_pool r)) = map concurrency (quarantine p) @ [Some a]"
    if h: "u \<and> n \<noteq> 0 \<and> length (quarantine p) < quarantine_cap p"
  proof -
    from h obtain uq where uq: "unhealthyClients p = Some uq" "length (buf uq) < cap uq"
      by (cases "unhealthyClients p") (auto simp: quarantine_def quarantine_cap_def)
    from room [OF _ _ uq] h uq show ?thesis
      by (simp add: held_def quarantine_def)
  qed
  have waits: "\<not> close_returns r \<and> quarantine (close_pool r) = quarantine p"
    if h: "u \<and> n \<noteq> 0 \<and> \<not> length (quarantine p) < quarantine_cap p"
  proof (cases "unhealthyClients p")
    case None
    with nil h show ?thesis by simp
  next
    case (Some uq)
    with h have "\<not> length (buf uq) < cap uq"
      by (simp add: quarantine_def quarantine_cap_def)
    with full [OF _ _ Some] h show ?thesis by simp
  qed
  have kept: "close_returns r \<and> close_error r = None \<and>
       map ClientConn (held (close_handle r)) = [None] \<and>
       quarantine (close_pool r) = quarantine p" if "\<not> u"
    using healthy that by (simp add: held_def)
  have get: "quarantine (get_pool (Get ctx pick now2 p2 e2)) = quarantine p2"
    using Get_unhealthyClients [of ctx pick now2 p2 e2] by (simp add: quarantine_def)
  show ?thesis
    using log cnt main at_zero moved waits kept get Pool_Close_closedConns [of p2 e2]
      Pool_Close_channels [of p2 e2]
    by blast
qed

section \<open>The claims\<close>

text \<open>
  Claim C1. As stated: in every reachable state \<open>Available()\<close> plus the number of
  handles checked out and not yet released is \<open>Capacity()\<close>; on a pool of capacity 3
  one successful \<open>Get\<close> takes \<open>Available()\<close> from 3 to 2 and its \<open>Close\<close> brings it
  back to 3. The tests say the same (\<open>TestNew\<close> expects 2 after one \<open>Get\<close> and 0
  after three, \<open>TestTimeout\<close> expects 0 and a timeout), and so does the comment on
  \<open>Available\<close>, the number of currently unused clients. On the code, in \<open>TestNew\<close>'s
  run, after \<open>New(dial, 1, 3, 0)\<close> and one \<open>Get\<close> the state is reachable, one handle
  is out and \<open>Available()\<close> is still 3, because line 224 sends the wrapper back into
  the channel it was received from. In \<open>TestTimeout\<close>'s run, after one \<open>Get\<close> on a
  pool of capacity 1 \<open>Available()\<close> is 1, and the second \<open>Get\<close> returns a handle on
  the same connection where the test expects \<open>ErrTimeout\<close>.
\<close>

theorem Get_leaves_Available_at_Capacity:
  "reachable 3 (get_pool tn_get) (get_env tn_get) (held (get_handle tn_get)) \<and>
   Available tn_pool = 3 \<and>
   Available (get_pool tn_get) = 3 \<and>
   Capacity (get_pool tn_get) = 3 \<and>
   outstandingCheckouts (held (get_handle tn_get)) = 1 \<and>
   Available (get_pool tn_get) + outstandingCheckouts (held (get_handle tn_get))
     \<noteq> Capacity (get_pool tn_get) \<and>
   Available (close_pool tn_release) = 3 \<and>
   get_returns tt_get \<and>
   outstandingCheckouts (held (get_handle tt_get)) = 1 \<and>
   Available (get_pool tt_get) = 1 \<and>
   get_returns tt_get2 \<and> get_error tt_get2 = None \<and>
   map ClientConn (held (get_handle tt_get2)) = map ClientConn (held (get_handle tt_get))"
proof -
  have "Available tn_pool = 3" and "Available (get_pool tn_get) = 3"
    and "Capacity (get_pool tn_get) = 3"
    and "outstandingCheckouts (held (get_handle tn_get)) = 1"
    and "Available (close_pool tn_release) = 3"
    and "get_returns tt_get"
    and "outstandingCheckouts (held (get_handle tt_get)) = 1"
    and "Available (get_pool tt_get) = 1"
    and "get_returns tt_get2" and "get_error tt_get2 = None"
    and "map ClientConn (held (get_handle tt_get2)) = map ClientConn (held (get_handle tt_get))"
    by code_simp+
  with tn_reachable_get show ?thesis by simp
qed



text \<open>
  Claim C3. As stated: a \<open>Get\<close> whose factory call fails puts exactly one placeholder
  back and returns the factory's error. On the code, after the placeholder of lines
  210-212 the call falls through to line 224 and sends the wrapper it had received as
  well. On a pool \<open>New(dial_fails_once, 0, 1, 0)\<close> the channel is full after the
  placeholder, the second send waits and \<open>Get\<close> does not return. On a pool of
  capacity 2 with one wrapper taken by another goroutine both sends go through:
  \<open>Get\<close> returns the error, and the channel has two wrappers more, the placeholder
  and the wrapper returned to the caller, for the one it received.
\<close>

theorem Get_factory_failure_sends_twice:
  "new_error ff_new = None \<and>
   Available (the (new_pool ff_new)) = 1 \<and>
   get_blocks ff_get \<and> \<not> get_returns ff_get \<and>
   calls (get_env ff_get) = 1 \<and>
   queue (get_pool ff_get) = [placeholder] \<and>
   length (queue fc_taken) = 1 \<and>
   get_returns fc_get \<and> get_error fc_get = Some (FactoryError 0) \<and>
   calls (get_env fc_get) = 1 \<and>
   queue (get_pool fc_get) = placeholder # held (get_handle fc_get) \<and>
   length (queue (get_pool fc_get)) = 2"
  by code_simp

text \<open>
  Claim C4. As stated: \<open>Close\<close> on a handle tears the connection down only when the
  handle is unhealthy and the shared counter reads zero; an unhealthy handle with a
  nonzero counter is moved to the quarantine channel and its connection is closed
  only later, by \<open>Close\<close> on the pool. The comment of lines 276-277 says the same: a
  connection still in use goes to the unhealthy list, for later cleanup. On the code
  the first half holds (lemma \<open>Close_teardown_cases\<close>) and the second does not, in
  two runs of calls made one after the other.

  With an idle timeout of 10: two clients share connection 0; the first is marked
  unhealthy and closed at 103, the counter reads 1, nothing is closed and the
  quarantine channel holds connection 0. The copy that \<open>Get\<close> had sent back is still
  in the main channel with the \<open>timeUsed\<close> of construction, so the \<open>Get\<close> at 120
  finds it idle and closes connection 0 (lines 197-201) while the pool is open, the
  second client is out and the quarantine channel still holds that connection.

  With no idle timeout and capacity 1: the quarantine channel, made with the
  capacity of the pool (line 97), is full after the first unhealthy \<open>Close\<close>; the
  \<open>Close\<close> of a second unhealthy client with a nonzero counter waits in its send at
  line 278 and does not return, and the handle is not in the quarantine channel.
\<close>

theorem quarantined_connection_closed_before_Pool_Close:
  "close_returns ie_release \<and> close_error ie_release = None \<and>
   closedConns (close_env ie_release) = [] \<and>
   counters (close_env ie_release) 0 = 1 \<and>
   map ClientConn (quarantine (close_pool ie_release)) = [Some 0] \<and>
   map ClientConn (held (get_handle ie_get2)) = [Some 0] \<and>
   get_returns ie_get3 \<and>
   closedConns (get_env ie_get3) = [0] \<and>
   \<not> IsClosed (Some ThePool) (get_pool ie_get3) \<and>
   map ClientConn (quarantine (get_pool ie_get3)) = [Some 0] \<and>
   close_returns qr_release \<and>
   map ClientConn (quarantine (close_pool qr_release)) = [Some 0] \<and>
   get_returns qr_get3 \<and>
   length (quarantine (get_pool qr_get3)) = quarantine_cap (get_pool qr_get3) \<and>
   map unhealthy (held (map_option Unhealthy (get_handle qr_get2))) = [True] \<and>
   counters (get_env qr_get3) 0 = 2 \<and>
   \<not> close_returns qr_release2 \<and>
   counters (close_env qr_release2) 0 = 1 \<and>
   closedConns (close_env qr_release2) = [] \<and>
   quarantine (close_pool qr_release2) = quarantine (get_pool qr_get3)"
  by code_simp

text \<open>
  Claim C5. When \<open>Close\<close> on a handle (a receiver that is not nil) has returned nil,
  the handle it leaves has no connection, and \<open>Close\<close> on it again, at any later
  time and in any later state of the pool and of the environment, returns
  \<open>ErrAlreadyClosed\<close> and gives back the handle, the pool and the environment as they
  were: no counter moves and neither channel changes.
\<close>

theorem Close_twice_ErrAlreadyClosed:
  assumes "ClientConn_Close now (Some c) p e = CReturned None (Some c') p' e'"
  shows "ClientConn c' = None \<and>
    ClientConn_Close now2 (Some c') p2 e2 = CReturned (Some ErrAlreadyClosed) (Some c') p2 e2"
proof -
  have "ClientConn c' = None"
    using assms
    by (auto simp: ClientConn_Close_def Close_dispose_def Let_def Unhealthy_def
        split: if_splits option.splits)
  then show ?thesis by (simp add: ClientConn_Close_def)
qed

theorem Close_twice_ErrAlreadyClosed_witness:
  "close_returns tn_release \<and> close_error tn_release = None \<and>
   tn_release2 =
     CReturned (Some ErrAlreadyClosed) (close_handle tn_release) (close_pool tn_release)
       (close_env tn_release)"
proof -
  obtain h where h: "get_handle tn_get = Some h"
    using tn_get_eval by blast
  obtain h' where h': "close_handle tn_release = Some h'"
    and r: "tn_release = CReturned None (Some h') (close_pool tn_release) (close_env tn_release)"
    using tn_release_eval by blast
  have "ClientConn_Close 300 (Some h) (get_pool tn_get) (get_env tn_get) =
        CReturned None (Some h') (close_pool tn_release) (close_env tn_release)"
    using r h by (simp add: tn_release_def)
  from Close_twice_ErrAlreadyClosed [OF this, of 400 "close_pool tn_release" "close_env tn_release"]
  have "tn_release2 =
     CReturned (Some ErrAlreadyClosed) (close_handle tn_release) (close_pool tn_release)
       (close_env tn_release)"
    using h' by (simp add: tn_release2_def)
  moreover have "close_returns tn_release" and "close_error tn_release = None"
    by code_simp+
  ultimately show ?thesis by simp
qed

text \<open>
  Claim C6. As stated: every construction call coerces the capacity to at least 1 and
  ends with \<open>Available()\<close> equal to the capacity, or with the error of a failed
  factory call. The code bounds the capacity from below only: on
  \<open>New(dial, 1, math.MaxInt64, 0)\<close> the \<open>make\<close> of line 96 panics, before any factory
  call, and the call returns neither a pool nor an error.
\<close>

theorem NewWithContext_huge_capacity_counterexample:
  "new_panics big_new \<and> new_pool big_new = None \<and> new_error big_new = None \<and>
   calls (new_env big_new) = 0"
  by (simp add: big_new_def NewWithContext_def make_chan_def env0_def Let_def)

text \<open>
  Claim C6, amended. With \<open>capacity'\<close> the capacity coerced to at least 1 and \<open>init'\<close>
  the initial count coerced into \<open>[0, capacity']\<close>: when \<open>capacity'\<close> is more than the
  runtime can allocate a channel for, \<open>NewWithContext\<close> panics before any factory
  call. Otherwise it returns: when the first \<open>init'\<close> factory calls all succeed it
  returns a pool and no error after exactly \<open>init'\<close> factory calls, the channel holds
  the \<open>init'\<close> connections the factory gave, in order, followed by
  \<open>capacity' - init'\<close> wrappers without a connection, and \<open>Available()\<close> and
  \<open>Capacity()\<close> are both \<open>capacity'\<close>; when some factory call among the first
  \<open>init'\<close> fails, it returns the error of the first one that fails and no pool, and
  no factory call is made after that one.
\<close>

theorem NewWithContext_construction:
  fixes init capacity :: "64 word"
  defines "capacity' \<equiv> (if sint capacity \<le> 0 then 1 else nat (sint capacity))"
  defines "init' \<equiv> (if sint init < 0 then 0 else min (nat (sint init)) capacity')"
  shows "1 \<le> capacity' \<and> init' \<le> capacity' \<and>
    (chanMax e < int capacity' \<longrightarrow>
       NewWithContext fac init capacity idle maxLife now e = NewPanicked e) \<and>
    (int capacity' \<le> chanMax e \<and> (\<forall>i < init'. snd (fac (calls e + i)) = None) \<longrightarrow>
       (\<exists>p e'. NewWithContext fac init capacity idle maxLife now e = NewReturned (Some p) None e' \<and>
          calls e' = calls e + init' \<and>
          map ClientConn (queue p) =
            map (\<lambda>i. fst (fac i)) [calls e ..< calls e + init'] @
            replicate (capacity' - init') None \<and>
          Available p = capacity' \<and> Capacity p = capacity')) \<and>
    (\<forall>k er. int capacity' \<le> chanMax e \<and> k < init' \<and> snd (fac (calls e + k)) = Some er \<and>
        (\<forall>i < k. snd (fac (calls e + i)) = None) \<longrightarrow>
       (\<exists>e'. NewWithContext fac init capacity idle maxLife now e = NewReturned None (Some er) e' \<and>
          calls e' = calls e + k + 1))"
proof -
  define c1 :: "64 word" where "c1 = (if sint capacity \<le> 0 then 1 else capacity)"
  define i1 :: "64 word" where "i1 = (if sint init < 0 then 0 else init)"
  define i2 :: "64 word" where "i2 = (if sint i1 > sint c1 then c1 else i1)"
  have sle: "0 \<le> sint i2" "sint i2 \<le> sint c1" "1 \<le> sint c1"
    by (auto simp: c1_def i1_def i2_def)
  have c: "sint c1 = int capacity'"
    by (auto simp: c1_def capacity'_def)
  have i: "nat (sint i2) = init'"
    by (auto simp: c1_def i1_def i2_def capacity'_def init'_def min_def)
  have "sint (c1 - i2) = sint c1 - sint i2"
    using sint_sub_no_wrap sle by simp
  then have d: "nat (sint (c1 - i2)) = capacity' - init'"
    using c i sle by (simp add: nat_diff_distrib)
  have le: "1 \<le> capacity'" "init' \<le> capacity'"
    by (auto simp: capacity'_def init'_def)
  define q0 :: "ClientConn chan" where "q0 = \<lparr>buf = [], cap = capacity'\<rparr>"
  have m: "make_chan (sint c1) e = (if int capacity' \<le> chanMax e then Some q0 else None)"
    by (simp add: make_chan_def c q0_def)
  have panic: "NewWithContext fac init capacity idle maxLife now e = NewPanicked e"
    if "chanMax e < int capacity'"
    unfolding NewWithContext_def c1_def[symmetric] i1_def[symmetric] Let_def i2_def[symmetric]
    using that by (simp add: m)
  have unf: "NewWithContext fac init capacity idle maxLife now e =
     (let p = \<lparr>clients = Some q0, unhealthyClients = Some q0,
               factory = fac, idleTimeout = idle, maxLifeDuration = 0\<rparr>;
          p1 = (case maxLife of [] \<Rightarrow> p | d # ds \<Rightarrow> p\<lparr>maxLifeDuration := d\<rparr>)
      in case warm fac init' now q0 e of
           LoopErr er e1 \<Rightarrow> NewReturned None (Some er) e1
         | LoopBlocked q e1 \<Rightarrow> NewBlocked e1
         | LoopOk q e1 \<Rightarrow>
             (case fill (capacity' - init') q e1 of
                LoopErr er e2 \<Rightarrow> NewReturned None (Some er) e2
              | LoopBlocked q2 e2 \<Rightarrow> NewBlocked e2
              | LoopOk q2 e2 \<Rightarrow> NewReturned (Some (p1\<lparr>clients := Some q2\<rparr>)) None e2))"
    if "int capacity' \<le> chanMax e"
    unfolding NewWithContext_def c1_def[symmetric] i1_def[symmetric] Let_def i2_def[symmetric]
      i d m
    using that by simp
  have room: "length (buf q0) + init' \<le> cap q0" using le by (simp add: q0_def)
  have ok: "\<exists>p e'. NewWithContext fac init capacity idle maxLife now e = NewReturned (Some p) None e' \<and>
          calls e' = calls e + init' \<and>
          map ClientConn (queue p) =
            map (\<lambda>i. fst (fac i)) [calls e ..< calls e + init'] @ replicate (capacity' - init') None \<and>
          Available p = capacity' \<and> Capacity p = capacity'"
    if fits: "int capacity' \<le> chanMax e" and all: "\<forall>i < init'. snd (fac (calls e + i)) = None"
  proof -
    from warm_all_succeed[OF all room, of now] obtain q1 e1 where
      w: "warm fac init' now q0 e = LoopOk q1 e1" "calls e1 = calls e + init'"
         "map ClientConn (buf q1) = map ClientConn (buf q0) @ map (\<lambda>i. fst (fac i)) [calls e ..< calls e + init']"
      by blast
    from warm_LoopOk[OF w(1)] have q1: "cap q1 = capacity'" "length (buf q1) = init'"
      by (auto simp: q0_def)
    have "length (buf q1) + (capacity' - init') \<le> cap q1" using q1 le by simp
    from fill_all[OF this, of e1] obtain q2 e2 where
      f: "fill (capacity' - init') q1 e1 = LoopOk q2 e2" "calls e2 = calls e1"
         "map ClientConn (buf q2) = map ClientConn (buf q1) @ replicate (capacity' - init') None"
      by blast
    from fill_LoopOk[OF f(1)] have q2: "cap q2 = capacity'" "length (buf q2) = capacity'"
      using q1 le by auto
    show ?thesis
      unfolding unf[OF fits] using w f q2
      by (auto simp: Let_def queue_def Available_def Capacity_def IsClosed_def getClients_def q0_def
          split: list.splits)
  qed
  have bad: "\<exists>e'. NewWithContext fac init capacity idle maxLife now e = NewReturned None (Some er) e' \<and>
          calls e' = calls e + k + 1"
    if fits: "int capacity' \<le> chanMax e"
      and "k < init'" "snd (fac (calls e + k)) = Some er" "\<forall>i < k. snd (fac (calls e + i)) = None"
    for k er
  proof -
    from warm_first_failure[OF that(2-4) room, of now] obtain e' where
      "warm fac init' now q0 e = LoopErr er e'" "calls e' = calls e + k + 1" by blast
    then show ?thesis unfolding unf[OF fits] by (simp add: Let_def)
  qed
  show ?thesis using le panic ok bad by blast
qed

theorem NewWithContext_construction_witness:
  "(\<exists>p e'. NewWithContext dial 1 3 0 [] 100 env0 = NewReturned (Some p) None e' \<and>
      calls e' = 1 \<and> map ClientConn (queue p) = [Some 0, None, None] \<and>
      Available p = 3 \<and> Capacity p = 3) \<and>
   (\<exists>e'. NewWithContext dial_fails_once 2 3 0 [] 100 env0 =
      NewReturned None (Some (FactoryError 0)) e' \<and> calls e' = 1) \<and>
   NewWithContext dial 1 9223372036854775807 0 [] 100 env0 = NewPanicked env0"
proof -
  have a: "int (if sint (3 :: 64 word) \<le> 0 then 1 else nat (sint (3 :: 64 word))) \<le> chanMax env0 \<and>
      (\<forall>i < (if sint (1 :: 64 word) < 0 then 0
               else min (nat (sint (1 :: 64 word)))
                 (if sint (3 :: 64 word) \<le> 0 then 1 else nat (sint (3 :: 64 word)))).
          snd (dial (calls env0 + i)) = None)"
    by (simp add: dial_def env0_def)
  have r: "replicate 2 (None :: grpc_conn option) = [None, None]"
    by (simp add: numeral_2_eq_2)
  have u: "[0..<1] = [0::nat]"
    by (simp add: upt_rec)
  from NewWithContext_construction
      [where capacity = 3 and init = 1 and fac = dial and e = env0 and idle = 0
        and maxLife = "[]" and now = 100, THEN conjunct2, THEN conjunct2, THEN conjunct2,
        THEN conjunct1, rule_format, OF a]
  have first: "\<exists>p e'. NewWithContext dial 1 3 0 [] 100 env0 = NewReturned (Some p) None e' \<and>
      calls e' = 1 \<and> map ClientConn (queue p) = [Some 0, None, None] \<and>
      Available p = 3 \<and> Capacity p = 3"
    by (simp add: env0_def dial_def r u)
  have b: "int (if sint (3 :: 64 word) \<le> 0 then 1 else nat (sint (3 :: 64 word))) \<le> chanMax env0 \<and>
      (0::nat) < (if sint (2 :: 64 word) < 0 then 0
                  else min (nat (sint (2 :: 64 word)))
                    (if sint (3 :: 64 word) \<le> 0 then 1 else nat (sint (3 :: 64 word)))) \<and>
      snd (dial_fails_once (calls env0 + 0)) = Some (FactoryError 0) \<and>
      (\<forall>i < (0::nat). snd (dial_fails_once (calls env0 + i)) = None)"
    by (simp add: dial_fails_once_def env0_def)
  from NewWithContext_construction
      [where capacity = 3 and init = 2 and fac = dial_fails_once and e = env0 and idle = 0
        and maxLife = "[]" and now = 100, THEN conjunct2, THEN conjunct2, THEN conjunct2,
        THEN conjunct2, rule_format, OF b]
  have second: "\<exists>e'. NewWithContext dial_fails_once 2 3 0 [] 100 env0 =
      NewReturned None (Some (FactoryError 0)) e' \<and> calls e' = 1"
    by (simp add: env0_def)
  have c: "chanMax env0 <
      int (if sint (9223372036854775807 :: 64 word) \<le> 0 then 1
           else nat (sint (9223372036854775807 :: 64 word)))"
    by (simp add: env0_def)
  from NewWithContext_construction
      [where capacity = 9223372036854775807 and init = 1 and fac = dial and e = env0
        and idle = 0 and maxLife = "[]" and now = 100, THEN conjunct2, THEN conjunct2,
        THEN conjunct1, rule_format, OF c]
  have third: "NewWithContext dial 1 9223372036854775807 0 [] 100 env0 = NewPanicked env0"
    by simp
  from first second third show ?thesis by simp
qed

text \<open>
  Claim C7. As stated: with capacity 1 and a maximum life of 1ns, \<open>Get\<close> then \<open>Close\<close>
  marks the handle unhealthy, and the next \<open>Get\<close> calls the factory. On the code the
  first half holds: \<open>Close\<close> marks the handle unhealthy and closes connection 0. The
  copy that \<open>Get\<close> had sent back is still in the channel with connection 0, so the
  next \<open>Get\<close> returns connection 0, closed, and the factory has been called once in
  all.
\<close>

theorem max_life_next_Get_reuses_closed_connection:
  "get_returns ml_get \<and> calls (get_env ml_get) = 1 \<and>
   close_returns ml_release \<and> close_error ml_release = None \<and>
   map unhealthy (held (close_handle ml_release)) = [True] \<and>
   closedConns (close_env ml_release) = [0] \<and>
   map ClientConn (queue (close_pool ml_release)) = [Some 0] \<and>
   get_returns ml_get2 \<and> get_error ml_get2 = None \<and>
   map ClientConn (held (get_handle ml_get2)) = [Some 0] \<and>
   closedConns (get_env ml_get2) = [0] \<and>
   calls (get_env ml_get2) = 1"
  by code_simp

text \<open>
  Claim C8. As stated: \<open>Close\<close> on a healthy handle sets \<open>timeUsed\<close> to the release
  time on the copy in the main channel, so a \<open>Get\<close> within the idle timeout of the
  release reuses the connection. On the code the release time is written to the
  local clone of lines 266-271, which is sent nowhere; the copy in the channel keeps
  the \<open>timeUsed\<close> of construction. With an idle timeout of 10: the pool is built at
  100, the handle released at 108, and the \<open>Get\<close> at 112 finds \<open>timeUsed\<close> 100 in the
  channel, closes connection 0 and calls the factory a second time.
\<close>

theorem healthy_Close_leaves_timeUsed_in_queue:
  "get_returns it_get \<and> calls (get_env it_get) = 1 \<and>
   close_returns it_release \<and> close_error it_release = None \<and>
   map unhealthy (held (close_handle it_release)) = [False] \<and>
   queue (close_pool it_release) = queue (get_pool it_get) \<and>
   map timeUsed (queue (close_pool it_release)) = [100] \<and>
   get_returns it_get2 \<and> get_error it_get2 = None \<and>
   closedConns (get_env it_get2) = [0] \<and>
   calls (get_env it_get2) = 2 \<and>
   map ClientConn (held (get_handle it_get2)) = [Some 1]"
  by code_simp

text \<open>
  Claim C9. As stated: every wrapper in the main channel has a counter, the
  placeholder sent after a factory failure included. On the code the placeholder of
  lines 210-212 is \<open>ClientConn{pool: p}\<close>, with a nil counter, where lines 115, 122
  and 184 allocate one. After the failing \<open>Get\<close> on \<open>New(dial_fails_once, 0, 1, 0)\<close>
  the channel holds that placeholder, and the \<open>Get\<close> of a second goroutine, whose
  factory call succeeds, panics on \<open>wrapper.concurrency.Increment()\<close>.
\<close>

theorem factory_failure_placeholder_has_nil_counter:
  "map concurrency (queue (the (new_pool ff_new))) = [Some 0] \<and>
   get_blocks ff_get \<and>
   map ClientConn (queue (get_pool ff_get)) = [None] \<and>
   map concurrency (queue (get_pool ff_get)) = [None] \<and>
   get_panics ff_get2 \<and> calls (get_env ff_get2) = 2"
  by code_simp

text \<open>
  Claim C10. \<open>Close\<close> on a handle that still has its connection, when the pool is
  closed (or the handle has no pool), returns \<open>ErrClosed\<close> and gives back the handle,
  the pool and the environment as they were: the counter is not decremented, the
  handle is not marked unhealthy and keeps its connection. So \<open>Close\<close> on it again
  returns \<open>ErrClosed\<close> again, not \<open>ErrAlreadyClosed\<close>. (A handle without a connection
  gets \<open>ErrAlreadyClosed\<close> from the check of lines 243-245, which comes first.)
\<close>

theorem Close_on_closed_pool:
  assumes "ClientConn c \<noteq> None" and "IsClosed (pool c) p"
  shows "ClientConn_Close now (Some c) p e = CReturned (Some ErrClosed) (Some c) p e \<and>
    ClientConn_Close now2 (close_handle (ClientConn_Close now (Some c) p e))
        (close_pool (ClientConn_Close now (Some c) p e))
        (close_env (ClientConn_Close now (Some c) p e))
      = CReturned (Some ErrClosed) (Some c) p e"
  using assms by (simp add: ClientConn_Close_def)

theorem Close_on_closed_pool_witness:
  "IsClosed (Some ThePool) (fst cp_closed) \<and>
   cp_release = CReturned (Some ErrClosed) (get_handle tn_get) (fst cp_closed) (snd cp_closed) \<and>
   ClientConn_Close 400 (close_handle cp_release) (close_pool cp_release) (close_env cp_release)
     = CReturned (Some ErrClosed) (get_handle tn_get) (fst cp_closed) (snd cp_closed)"
proof -
  obtain h where h: "get_handle tn_get = Some h"
    using tn_get_eval by blast
  have "map ClientConn (held (get_handle tn_get)) = [Some 0]"
    and "map pool (held (get_handle tn_get)) = [Some ThePool]"
    and c: "IsClosed (Some ThePool) (fst cp_closed)"
    by code_simp+
  then have "ClientConn h \<noteq> None" and "IsClosed (pool h) (fst cp_closed)"
    using h by (simp_all add: held_def)
  note t = Close_on_closed_pool [OF this, of 300 "snd cp_closed" 400]
  from t [THEN conjunct1] t [THEN conjunct2] h c show ?thesis
    by (simp add: cp_release_def)
qed

end
